theory Spec2Isabelle
  imports Main "HOL-Library.Word" "HOL-Library.AList" "HOL-Library.Multiset"
begin

section \<open>Run-time failures\<close>

text \<open>
  The Go functions of \<^verbatim>\<open>credential.go\<close> and \<^verbatim>\<open>proofs.go\<close> return no error values.
  What can go wrong is a run-time panic: a slice index out of range, a method called on
  a nil \<^verbatim>\<open>*big.Int\<close>, a modulus by zero. Every function that can panic returns
  \<open>panic + 'a\<close>, with \<open>Inl\<close> for the panic.  A \<^verbatim>\<open>*big.Int\<close> that may be nil is an
  \<open>int option\<close> (\<open>None\<close> is nil); one that is known to be allocated is an \<open>int\<close>.
\<close>

datatype panic = IndexOutOfRange | NilPointer | DivisionByZero

definition pbind :: "panic + 'a \<Rightarrow> ('a \<Rightarrow> panic + 'b) \<Rightarrow> panic + 'b" where
  "pbind r f = (case r of Inl e \<Rightarrow> Inl e | Inr x \<Rightarrow> f x)"

definition deref :: "'a option \<Rightarrow> panic + 'a" where
  \<comment> \<open>using a pointer: nil panics\<close>
  "deref p = (case p of None \<Rightarrow> Inl NilPointer | Some x \<Rightarrow> Inr x)"

definition outcome :: "panic + 'a \<Rightarrow> 'a option" where
  \<comment> \<open>what a call returns, whatever the panic when it does not return\<close>
  "outcome r = (case r of Inl e \<Rightarrow> None | Inr x \<Rightarrow> Some x)"

definition index :: "'a list \<Rightarrow> int \<Rightarrow> panic + 'a" where
  \<comment> \<open>\<^verbatim>\<open>xs[i]\<close> on a slice, \<^verbatim>\<open>i\<close> of type \<^verbatim>\<open>int\<close>\<close>
  "index xs i = (if 0 \<le> i \<and> i < int (length xs) then Inr (xs ! nat i) else Inl IndexOutOfRange)"

definition lookup :: "(int \<times> 'a option) list \<Rightarrow> int \<Rightarrow> 'a option" where
  \<comment> \<open>\<^verbatim>\<open>m[k]\<close> on a \<^verbatim>\<open>map[int]*big.Int\<close>: a missing key reads as nil\<close>
  "lookup m k = (case map_of m k of None \<Rightarrow> None | Some v \<Rightarrow> v)"

section \<open>The big-integer library\<close>

text \<open>
  \<^verbatim>\<open>math/big\<close> as its documentation states it. \<^verbatim>\<open>Mod\<close> is the Euclidean modulus
  and panics on a zero modulus. \<^verbatim>\<open>ModInverse(g, n)\<close> is nil when \<^verbatim>\<open>g\<close> and
  \<^verbatim>\<open>n\<close> are not relatively prime, and otherwise the inverse in \<open>[0, |n|)\<close>.
  \<^verbatim>\<open>Exp(x, y, m)\<close> is \<open>x ^ y mod |m|\<close>; for \<open>m = 0\<close> it is \<open>x ^ y\<close>, or 1 when
  \<open>y \<le> 0\<close>; for \<open>m \<noteq> 0\<close> and \<open>y < 0\<close> it goes through the inverse of \<open>x\<close> and is
  nil when there is none.
\<close>

type_synonym uint = "64 word"

definition Lsh1 :: "uint \<Rightarrow> int" where
  \<comment> \<open>\<^verbatim>\<open>new(big.Int).Lsh(bigONE, n)\<close>\<close>
  "Lsh1 n = 2 ^ unat n"

definition bigMod :: "int \<Rightarrow> int \<Rightarrow> panic + int" where
  "bigMod x m = (if m = 0 then Inl DivisionByZero else Inr (x mod \<bar>m\<bar>))"

definition ModInverse :: "int \<Rightarrow> int \<Rightarrow> int option" where
  "ModInverse g n =
     (if gcd g n \<noteq> 1 then None
      else if n = 0 then Some g
      else Some (fst (bezw (nat (g mod \<bar>n\<bar>)) (nat \<bar>n\<bar>)) mod \<bar>n\<bar>))"

definition Exp :: "int \<Rightarrow> int \<Rightarrow> int \<Rightarrow> int option" where
  "Exp x y m =
     (if m = 0 then (if y \<le> 0 then Some 1 else Some (x ^ nat y))
      else if y < 0 then
        (case ModInverse x m of None \<Rightarrow> None | Some t \<Rightarrow> Some (t ^ nat (- y) mod \<bar>m\<bar>))
      else Some (x ^ nat y mod \<bar>m\<bar>))"

text \<open>
  Modelled from the spec: \<^verbatim>\<open>modPow\<close> is a helper of the repository that is not among
  the sources. The spec asks for modular exponentiation that accepts negative exponents
  through the modular inverse: for \<open>y < 0\<close> the base is inverted first (a nil inverse
  panics at its first use), then raised to \<open>- y\<close>. A nil exponent panics.
\<close>

definition modPow :: "int \<Rightarrow> int option \<Rightarrow> int \<Rightarrow> panic + int" where
  "modPow x y m =
     pbind (deref y) (\<lambda>y.
       if y < 0 then pbind (deref (ModInverse x m)) (\<lambda>t. deref (Exp t (- y) m))
       else deref (Exp x y m))"

section \<open>Data model\<close>

text \<open>
  The records follow the Go structs; a field \<^verbatim>\<open>F\<close> of struct \<^verbatim>\<open>T\<close> keeps its
  name behind a prefix for \<^verbatim>\<open>T\<close>. The bit lengths are Go \<^verbatim>\<open>uint\<close>s (they are the
  shift counts of \<^verbatim>\<open>Lsh\<close>), 64 bits wide. \<open>Ln\<close> is the bit length of the modulus
  that section 4.1 of the spec reads as \<^verbatim>\<open>pk.Params.Ln\<close>.
\<close>

record SystemParameters =
  Le :: uint
  LeCommit :: uint
  Lv :: uint
  LvCommit :: uint
  LvPrimeCommit :: uint
  Lm :: uint
  LmCommit :: uint
  Ln :: uint

record PublicKey =
  pk_N :: int
  pk_S :: int
  pk_Z :: int
  pk_R :: "int list"
  pk_Params :: SystemParameters

record CLSignature =
  sig_A :: int
  sig_E :: int
  sig_V :: int

text \<open>
  A Go \<^verbatim>\<open>map[int]*big.Int\<close> is an association list with distinct keys; \<^verbatim>\<open>range\<close>
  enumerates it in the order of the list. Go leaves that order open, so two lists with
  the same entries are two enumerations of one map.
\<close>

type_synonym bigmap = "(int \<times> int) list"

record ProofU =
  pu_u :: int
  pu_c :: int
  pu_vPrimeResponse :: int
  pu_sResponse :: int


record ProofD =
  pd_c :: int
  pd_A :: int
  pd_eResponse :: int
  pd_vResponse :: int
  pd_aResponses :: bigmap
  pd_aDisclosed :: bigmap

text \<open>The interface \<^verbatim>\<open>Proof\<close> has two implementations, \<^verbatim>\<open>*ProofU\<close> and \<^verbatim>\<open>*ProofD\<close>.\<close>

datatype Proof = PU ProofU | PD ProofD

section \<open>Challenges\<close>

text \<open>
  \<^verbatim>\<open>hashCommit\<close> is not among the sources and the spec names no hash primitive: it is
  the parameter \<open>H\<close> of every function that hashes.
\<close>

definition createChallenge :: "(int list \<Rightarrow> int) \<Rightarrow> int \<Rightarrow> int \<Rightarrow> int list \<Rightarrow> int" where
  "createChallenge H context nonce contributions = H (context # contributions @ [nonce])"

section \<open>ProofU\<close>

definition ProofU_correctResponseSizes :: "ProofU \<Rightarrow> PublicKey \<Rightarrow> bool" where
  "ProofU_correctResponseSizes p pk =
     (let maximum = Lsh1 (LvPrimeCommit (pk_Params pk) + 1) - 1;
          minimum = - maximum
      in pu_vPrimeResponse p \<ge> minimum \<and> pu_vPrimeResponse p \<le> maximum)"

definition ProofU_VerifyWithChallenge :: "ProofU \<Rightarrow> PublicKey \<Rightarrow> int \<Rightarrow> bool" where
  "ProofU_VerifyWithChallenge p pk reconstructedChallenge =
     (ProofU_correctResponseSizes p pk \<and> pu_c p = reconstructedChallenge)"

definition reconstructUcommit :: "ProofU \<Rightarrow> PublicKey \<Rightarrow> panic + int" where
  "reconstructUcommit p pk =
     pbind (modPow (pu_u p) (Some (- pu_c p)) (pk_N pk)) (\<lambda>Uc.
     pbind (modPow (pk_S pk) (Some (pu_vPrimeResponse p)) (pk_N pk)) (\<lambda>Sv.
     pbind (index (pk_R pk) 0) (\<lambda>R0.
     pbind (modPow R0 (Some (pu_sResponse p)) (pk_N pk)) (\<lambda>R0s.
     bigMod (Uc * Sv * R0s) (pk_N pk)))))"

definition ProofU_SecretKeyResponse :: "ProofU \<Rightarrow> int option" where
  "ProofU_SecretKeyResponse p = Some (pu_sResponse p)"

definition ProofU_ChallengeContribution :: "ProofU \<Rightarrow> PublicKey \<Rightarrow> panic + int list" where
  "ProofU_ChallengeContribution p pk =
     pbind (reconstructUcommit p pk) (\<lambda>Ucommit. Inr [pu_u p, Ucommit])"

definition ProofU_Verify ::
  "(int list \<Rightarrow> int) \<Rightarrow> ProofU \<Rightarrow> PublicKey \<Rightarrow> int \<Rightarrow> int \<Rightarrow> panic + bool" where
  "ProofU_Verify H p pk context nonce =
     pbind (ProofU_ChallengeContribution p pk) (\<lambda>contribution.
       Inr (ProofU_VerifyWithChallenge p pk (createChallenge H context nonce contribution)))"

section \<open>ProofS\<close>


section \<open>ProofD\<close>

fun responsesInRange :: "int \<Rightarrow> int \<Rightarrow> bigmap \<Rightarrow> bool" where
  "responsesInRange minimum maximum [] = True"
| "responsesInRange minimum maximum ((i, aResponse) # rest) =
     (if aResponse < minimum \<or> aResponse > maximum then False
      else responsesInRange minimum maximum rest)"

definition correctResponseSizes :: "ProofD \<Rightarrow> PublicKey \<Rightarrow> bool" where
  "correctResponseSizes p pk =
     (let maximum = Lsh1 (LmCommit (pk_Params pk) + 1) - 1;
          minimum = - maximum
      in if \<not> responsesInRange minimum maximum (pd_aResponses p) then False
         else
           let maximum = Lsh1 (LeCommit (pk_Params pk) + 1) - 1;
               minimum = - maximum
           in if pd_eResponse p < minimum \<or> pd_eResponse p > maximum then False
              else True)"

text \<open>The first loop of \<^verbatim>\<open>reconstructZ\<close>: the product over the disclosed attributes.\<close>

fun disclosedProduct :: "PublicKey \<Rightarrow> int \<Rightarrow> bigmap \<Rightarrow> panic + int" where
  "disclosedProduct pk numerator [] = Inr numerator"
| "disclosedProduct pk numerator ((i, attribute) # rest) =
     pbind (index (pk_R pk) i) (\<lambda>Ri.
     pbind (deref (Exp Ri attribute (pk_N pk))) (\<lambda>t.
       disclosedProduct pk (numerator * t) rest))"

text \<open>The second loop: the product over the responses of the hidden attributes.\<close>

fun responseProduct :: "PublicKey \<Rightarrow> int \<Rightarrow> bigmap \<Rightarrow> panic + int" where
  "responseProduct pk Rs [] = Inr Rs"
| "responseProduct pk Rs ((i, response) # rest) =
     pbind (index (pk_R pk) i) (\<lambda>Ri.
     pbind (modPow Ri (Some response) (pk_N pk)) (\<lambda>t.
       responseProduct pk (Rs * t) rest))"

definition reconstructZ :: "ProofD \<Rightarrow> PublicKey \<Rightarrow> panic + int" where
  "reconstructZ p pk =
     pbind (deref (Exp (pd_A p) (Lsh1 (Le (pk_Params pk) - 1)) (pk_N pk))) (\<lambda>numerator.
     pbind (disclosedProduct pk numerator (pd_aDisclosed p)) (\<lambda>numerator.
     pbind (deref (ModInverse numerator (pk_N pk))) (\<lambda>known.
     let known = pk_Z pk * known in
     pbind (modPow known (Some (- pd_c p)) (pk_N pk)) (\<lambda>knownC.
     pbind (modPow (pd_A p) (Some (pd_eResponse p)) (pk_N pk)) (\<lambda>Ae.
     pbind (modPow (pk_S pk) (Some (pd_vResponse p)) (pk_N pk)) (\<lambda>Sv.
     pbind (responseProduct pk 1 (pd_aResponses p)) (\<lambda>Rs.
       bigMod (knownC * Ae * Rs * Sv) (pk_N pk))))))))"

definition ProofD_VerifyWithChallenge :: "ProofD \<Rightarrow> PublicKey \<Rightarrow> int \<Rightarrow> bool" where
  "ProofD_VerifyWithChallenge p pk reconstructedChallenge =
     (correctResponseSizes p pk \<and> pd_c p = reconstructedChallenge)"

definition ProofD_ChallengeContribution :: "ProofD \<Rightarrow> PublicKey \<Rightarrow> panic + int list" where
  "ProofD_ChallengeContribution p pk =
     pbind (reconstructZ p pk) (\<lambda>Z. Inr [pd_A p, Z])"

definition ProofD_Verify ::
  "(int list \<Rightarrow> int) \<Rightarrow> ProofD \<Rightarrow> PublicKey \<Rightarrow> int \<Rightarrow> int \<Rightarrow> panic + bool" where
  "ProofD_Verify H p pk context nonce1 =
     pbind (ProofD_ChallengeContribution p pk) (\<lambda>contribution.
       Inr (ProofD_VerifyWithChallenge p pk (createChallenge H context nonce1 contribution)))"

definition ProofD_SecretKeyResponse :: "ProofD \<Rightarrow> int option" where
  "ProofD_SecretKeyResponse p = map_of (pd_aResponses p) 0"

section \<open>The Proof interface and ProofList\<close>

fun VerifyWithChallenge :: "Proof \<Rightarrow> PublicKey \<Rightarrow> int \<Rightarrow> bool" where
  "VerifyWithChallenge (PU p) pk c = ProofU_VerifyWithChallenge p pk c"
| "VerifyWithChallenge (PD p) pk c = ProofD_VerifyWithChallenge p pk c"

fun SecretKeyResponse :: "Proof \<Rightarrow> int option" where
  "SecretKeyResponse (PU p) = ProofU_SecretKeyResponse p"
| "SecretKeyResponse (PD p) = ProofD_SecretKeyResponse p"

fun ChallengeContribution :: "Proof \<Rightarrow> PublicKey \<Rightarrow> panic + int list" where
  "ChallengeContribution (PU p) pk = ProofU_ChallengeContribution p pk"
| "ChallengeContribution (PD p) pk = ProofD_ChallengeContribution p pk"

fun Proof_Verify :: "(int list \<Rightarrow> int) \<Rightarrow> Proof \<Rightarrow> PublicKey \<Rightarrow> int \<Rightarrow> int \<Rightarrow> panic + bool" where
  "Proof_Verify H (PU p) pk context nonce = ProofU_Verify H p pk context nonce"
| "Proof_Verify H (PD p) pk context nonce = ProofD_Verify H p pk context nonce"

text \<open>
  \<^verbatim>\<open>x.Cmp(y)\<close> reads both operands; pointer-equal operands (two nils among them)
  compare equal before either is read.
\<close>

definition Cmp :: "int option \<Rightarrow> int option \<Rightarrow> panic + int" where
  "Cmp x y =
     (if x = None \<and> y = None then Inr 0
      else pbind (deref x) (\<lambda>a. pbind (deref y) (\<lambda>b.
        Inr (if a < b then - 1 else if a = b then 0 else 1))))"

text \<open>
  The loops of \<^verbatim>\<open>ProofList\<close> run over the proofs and read \<^verbatim>\<open>publicKeys[i]\<close>; they
  are only reached when both slices have the same length, so they run over the pairs.
\<close>

fun challengeContributions :: "(Proof \<times> PublicKey) list \<Rightarrow> panic + int list" where
  "challengeContributions [] = Inr []"
| "challengeContributions ((proof, pk) # rest) =
     pbind (ChallengeContribution proof pk) (\<lambda>c.
     pbind (challengeContributions rest) (\<lambda>cs. Inr (c @ cs)))"

fun verifyBound :: "int option \<Rightarrow> int \<Rightarrow> (Proof \<times> PublicKey) list \<Rightarrow> panic + bool" where
  "verifyBound expectedSecretKeyResponse expectedChallenge [] = Inr True"
| "verifyBound expectedSecretKeyResponse expectedChallenge ((proof, pk) # rest) =
     pbind (Cmp expectedSecretKeyResponse (SecretKeyResponse proof)) (\<lambda>r.
       if r \<noteq> 0 \<or> \<not> VerifyWithChallenge proof pk expectedChallenge then Inr False
       else verifyBound expectedSecretKeyResponse expectedChallenge rest)"

fun verifyUnbound ::
  "(int list \<Rightarrow> int) \<Rightarrow> int \<Rightarrow> int \<Rightarrow> (Proof \<times> PublicKey) list \<Rightarrow> panic + bool" where
  "verifyUnbound H context nonce [] = Inr True"
| "verifyUnbound H context nonce ((proof, pk) # rest) =
     pbind (ChallengeContribution proof pk) (\<lambda>contribution.
       if \<not> VerifyWithChallenge proof pk (createChallenge H context nonce contribution)
       then Inr False
       else verifyUnbound H context nonce rest)"

definition ProofList_Verify ::
  "(int list \<Rightarrow> int) \<Rightarrow> Proof list \<Rightarrow> PublicKey list \<Rightarrow> int \<Rightarrow> int \<Rightarrow> bool \<Rightarrow> panic + bool" where
  "ProofList_Verify H pl publicKeys context nonce shouldBeBound =
     (if length pl = 0 then Inr True
      else if length pl \<noteq> length publicKeys then Inr False
      else if shouldBeBound then
        pbind (challengeContributions (zip pl publicKeys)) (\<lambda>contributions.
          let expectedChallenge = createChallenge H context nonce contributions;
              expectedSecretKeyResponse = SecretKeyResponse (pl ! 0)
          in verifyBound expectedSecretKeyResponse expectedChallenge (zip pl publicKeys))
      else verifyUnbound H context nonce (zip pl publicKeys))"

section \<open>Randomness\<close>

text \<open>
  Modelled from the spec: \<^verbatim>\<open>randomBigInt\<close> is not among the sources. The spec's
  generator produces a uniformly random integer of a requested bit length, or fails.
  A generator is the sequence of its coming outcomes: \<open>Some v\<close> is the sample \<open>v\<close>,
  \<open>None\<close> is a failure, where the call returns nil beside the error. Every call in
  the sources discards the error (\<^verbatim>\<open>x, _ := randomBigInt(n)\<close>) and keeps the pointer.
  That a sample of \<open>n\<close> bits lies in \<open>[0, 2 ^ n)\<close> is the generator's contract and a
  hypothesis wherever a theorem needs it.
\<close>

type_synonym rng = "nat \<Rightarrow> int option"

definition randomBigInt :: "uint \<Rightarrow> rng \<Rightarrow> int option \<times> rng" where
  "randomBigInt numBits g = (g 0, \<lambda>n. g (Suc n))"

text \<open>
  Modelled from the spec: \<^verbatim>\<open>CLSignature.Randomize\<close> is not among the sources.
  Section 4.1 of the spec: draw \<open>r\<close> of size \<open>Lv - Ln\<close> and return
  \<open>A' = A * S ^ r mod N\<close>, \<open>e' = e\<close>, \<open>v' = v - e * r\<close>.
\<close>

definition Randomize :: "CLSignature \<Rightarrow> PublicKey \<Rightarrow> rng \<Rightarrow> panic + (CLSignature \<times> rng)" where
  "Randomize s pk g =
     (let (r, g) = randomBigInt (Lv (pk_Params pk) - Ln (pk_Params pk)) g in
      pbind (modPow (pk_S pk) r (pk_N pk)) (\<lambda>Sr.
      pbind (bigMod (sig_A s * Sr) (pk_N pk)) (\<lambda>APrime.
      pbind (deref r) (\<lambda>r.
        Inr (\<lparr>sig_A = APrime, sig_E = sig_E s, sig_V = sig_V s - sig_E s * r\<rparr>, g)))))"

section \<open>Credentials and disclosure proofs\<close>

record IdemixCredential =
  ic_Signature :: CLSignature
  ic_Pk :: PublicKey
  ic_Attributes :: "int list"

record DisclosureProofBuilder =
  b_randomizedSignature :: CLSignature
  b_eCommit :: "int option"
  b_vCommit :: "int option"
  b_attrRandomizers :: "(int \<times> int option) list"
  b_z :: "int option"
  b_disclosedAttributes :: "int list"
  b_undisclosedAttributes :: "int list"
  b_pk :: PublicKey
  b_attributes :: "int list"

text \<open>\<^verbatim>\<open>for _, v := range disclosedAttributes { check[v] = true }\<close>\<close>

fun markDisclosed :: "bool list \<Rightarrow> int list \<Rightarrow> panic + bool list" where
  "markDisclosed check [] = Inr check"
| "markDisclosed check (v # vs) =
     (if 0 \<le> v \<and> v < int (length check) then markDisclosed (check[nat v := True]) vs
      else Inl IndexOutOfRange)"

definition getUndisclosedAttributes :: "int list \<Rightarrow> nat \<Rightarrow> panic + int list" where
  "getUndisclosedAttributes disclosedAttributes numAttributes =
     pbind (markDisclosed (replicate numAttributes False) disclosedAttributes) (\<lambda>check.
       Inr (map int (filter (\<lambda>i. \<not> check ! i) [0..<length check])))"

text \<open>\<^verbatim>\<open>for _, v := range undisclosed { m[v], _ = randomBigInt(numBits) }\<close>\<close>

fun sampleRandomizers ::
  "uint \<Rightarrow> int list \<Rightarrow> (int \<times> int option) list \<Rightarrow> rng \<Rightarrow> (int \<times> int option) list \<times> rng" where
  "sampleRandomizers numBits [] m g = (m, g)"
| "sampleRandomizers numBits (v # vs) m g =
     (let (r, g) = randomBigInt numBits g
      in sampleRandomizers numBits vs (AList.update v r m) g)"

text \<open>
  \<^verbatim>\<open>for _, v := range undisclosed { Z.Mul(Z, modPow(R[v], m[v], &N)); Z.Mod(Z, &N) }\<close>
\<close>

fun commitProduct ::
  "PublicKey \<Rightarrow> (int \<times> int option) list \<Rightarrow> int \<Rightarrow> int list \<Rightarrow> panic + int" where
  "commitProduct pk m Z [] = Inr Z"
| "commitProduct pk m Z (v # vs) =
     pbind (index (pk_R pk) v) (\<lambda>Rv.
     pbind (modPow Rv (lookup m v) (pk_N pk)) (\<lambda>t.
     pbind (bigMod (Z * t) (pk_N pk)) (\<lambda>Z.
       commitProduct pk m Z vs)))"

text \<open>
  \<^verbatim>\<open>for _, v := range undisclosed { t := c * attributes[v]; aResponses[v] = m[v] + t }\<close>
\<close>

fun hiddenResponses ::
  "int \<Rightarrow> int list \<Rightarrow> (int \<times> int option) list \<Rightarrow> bigmap \<Rightarrow> int list \<Rightarrow> panic + bigmap" where
  "hiddenResponses c attributes m aResponses [] = Inr aResponses"
| "hiddenResponses c attributes m aResponses (v # vs) =
     pbind (index attributes v) (\<lambda>a.
     pbind (deref (lookup m v)) (\<lambda>r.
       hiddenResponses c attributes m (AList.update v (r + c * a) aResponses) vs))"

text \<open>\<^verbatim>\<open>for _, v := range disclosed { aDisclosed[v] = attributes[v] }\<close>\<close>

fun disclosedValues :: "int list \<Rightarrow> bigmap \<Rightarrow> int list \<Rightarrow> panic + bigmap" where
  "disclosedValues attributes aDisclosed [] = Inr aDisclosed"
| "disclosedValues attributes aDisclosed (v # vs) =
     pbind (index attributes v) (\<lambda>a.
       disclosedValues attributes (AList.update v a aDisclosed) vs)"

definition CreateDisclosureProof ::
  "(int list \<Rightarrow> int) \<Rightarrow> IdemixCredential \<Rightarrow> int list \<Rightarrow> int \<Rightarrow> int \<Rightarrow> rng \<Rightarrow> panic + ProofD" where
  "CreateDisclosureProof H ic disclosedAttributes context nonce1 g =
     pbind (getUndisclosedAttributes disclosedAttributes (length (ic_Attributes ic)))
       (\<lambda>undisclosedAttributes.
     pbind (Randomize (ic_Signature ic) (ic_Pk ic) g) (\<lambda>(randSig, g).
     let (eCommit, g) = randomBigInt (LeCommit (pk_Params (ic_Pk ic))) g;
         (vCommit, g) = randomBigInt (LvCommit (pk_Params (ic_Pk ic))) g;
         (aCommits, g) =
            sampleRandomizers (LmCommit (pk_Params (ic_Pk ic))) undisclosedAttributes [] g
     in
     pbind (modPow (sig_A randSig) eCommit (pk_N (ic_Pk ic))) (\<lambda>Ae.
     pbind (modPow (pk_S (ic_Pk ic)) vCommit (pk_N (ic_Pk ic))) (\<lambda>Sv.
     pbind (bigMod (Ae * Sv) (pk_N (ic_Pk ic))) (\<lambda>Z.
     pbind (commitProduct (ic_Pk ic) aCommits Z undisclosedAttributes) (\<lambda>Z.
     let c = H [context, sig_A randSig, Z, nonce1];
         ePrime = sig_E randSig - Lsh1 (Le (pk_Params (ic_Pk ic)) - 1)
     in
     pbind (deref eCommit) (\<lambda>eCommit.
     pbind (deref vCommit) (\<lambda>vCommit.
     pbind (hiddenResponses c (ic_Attributes ic) aCommits [] undisclosedAttributes)
       (\<lambda>aResponses.
     pbind (disclosedValues (ic_Attributes ic) [] disclosedAttributes) (\<lambda>aDisclosed.
       Inr \<lparr>pd_c = c, pd_A = sig_A randSig,
            pd_eResponse = eCommit + c * ePrime,
            pd_vResponse = vCommit + c * sig_V randSig,
            pd_aResponses = aResponses, pd_aDisclosed = aDisclosed\<rparr>))))))))))"

definition CreateDisclosureProofBuilder ::
  "IdemixCredential \<Rightarrow> int list \<Rightarrow> rng \<Rightarrow> panic + DisclosureProofBuilder" where
  "CreateDisclosureProofBuilder ic disclosedAttributes g =
     pbind (Randomize (ic_Signature ic) (ic_Pk ic) g) (\<lambda>(randSig, g).
     let (eCommit, g) = randomBigInt (LeCommit (pk_Params (ic_Pk ic))) g;
         (vCommit, g) = randomBigInt (LvCommit (pk_Params (ic_Pk ic))) g
     in
     pbind (getUndisclosedAttributes disclosedAttributes (length (ic_Attributes ic)))
       (\<lambda>undisclosedAttributes.
     let (attrRandomizers, g) =
            sampleRandomizers (LmCommit (pk_Params (ic_Pk ic))) undisclosedAttributes [] g
     in
       Inr \<lparr>b_randomizedSignature = randSig, b_eCommit = eCommit, b_vCommit = vCommit,
            b_attrRandomizers = attrRandomizers, b_z = None,
            b_disclosedAttributes = disclosedAttributes,
            b_undisclosedAttributes = undisclosedAttributes,
            b_pk = ic_Pk ic, b_attributes = ic_Attributes ic\<rparr>))"

definition Commit ::
  "DisclosureProofBuilder \<Rightarrow> int option \<Rightarrow> panic + (DisclosureProofBuilder \<times> int list)" where
  "Commit d skRandomizer =
     (let attrRandomizers = AList.update 0 skRandomizer (b_attrRandomizers d) in
      pbind (modPow (sig_A (b_randomizedSignature d)) (b_eCommit d) (pk_N (b_pk d))) (\<lambda>Ae.
      pbind (modPow (pk_S (b_pk d)) (b_vCommit d) (pk_N (b_pk d))) (\<lambda>Sv.
      pbind (bigMod (Ae * Sv) (pk_N (b_pk d))) (\<lambda>z.
      pbind (commitProduct (b_pk d) attrRandomizers z (b_undisclosedAttributes d)) (\<lambda>z.
        Inr (d\<lparr>b_attrRandomizers := attrRandomizers, b_z := Some z\<rparr>,
             [sig_A (b_randomizedSignature d), z]))))))"

definition CreateProof :: "DisclosureProofBuilder \<Rightarrow> int \<Rightarrow> panic + Proof" where
  "CreateProof d challenge =
     (let ePrime = sig_E (b_randomizedSignature d) - Lsh1 (Le (pk_Params (b_pk d)) - 1) in
      pbind (deref (b_eCommit d)) (\<lambda>eCommit.
      pbind (deref (b_vCommit d)) (\<lambda>vCommit.
      pbind (hiddenResponses challenge (b_attributes d) (b_attrRandomizers d) []
               (b_undisclosedAttributes d)) (\<lambda>aResponses.
      pbind (disclosedValues (b_attributes d) [] (b_disclosedAttributes d)) (\<lambda>aDisclosed.
        Inr (PD \<lparr>pd_c = challenge, pd_A = sig_A (b_randomizedSignature d),
                 pd_eResponse = eCommit + challenge * ePrime,
                 pd_vResponse = vCommit + challenge * sig_V (b_randomizedSignature d),
                 pd_aResponses = aResponses, pd_aDisclosed = aDisclosed\<rparr>))))))"

section \<open>Building a list of bound proofs\<close>

text \<open>
  The interface \<^verbatim>\<open>ProofBuilder\<close> has one implementation in the sources,
  \<^verbatim>\<open>*DisclosureProofBuilder\<close>; the list of builders is a list of those.
  \<^verbatim>\<open>Commit\<close> updates its builder, so the first loop returns the builders as it leaves
  them.
\<close>

fun commitAll ::
  "int option \<Rightarrow> DisclosureProofBuilder list
     \<Rightarrow> panic + (DisclosureProofBuilder list \<times> int list)" where
  "commitAll skCommitment [] = Inr ([], [])"
| "commitAll skCommitment (pb # pbs) =
     pbind (Commit pb skCommitment) (\<lambda>(pb, values).
     pbind (commitAll skCommitment pbs) (\<lambda>(pbs, commitmentValues).
       Inr (pb # pbs, values @ commitmentValues)))"

fun createAll :: "int \<Rightarrow> DisclosureProofBuilder list \<Rightarrow> panic + Proof list" where
  "createAll challenge [] = Inr []"
| "createAll challenge (v # vs) =
     pbind (CreateProof v challenge) (\<lambda>p.
     pbind (createAll challenge vs) (\<lambda>ps. Inr (p # ps)))"

definition BuildProofList ::
  "(int list \<Rightarrow> int) \<Rightarrow> SystemParameters \<Rightarrow> int \<Rightarrow> int \<Rightarrow> DisclosureProofBuilder list \<Rightarrow> rng
     \<Rightarrow> panic + Proof list" where
  "BuildProofList H params context nonce proofBuilders g =
     (let (skCommitment, g) = randomBigInt (LmCommit params) g in
      pbind (commitAll skCommitment proofBuilders) (\<lambda>(proofBuilders, commitmentValues).
      let challenge = createChallenge H context nonce commitmentValues
      in createAll challenge proofBuilders))"

section \<open>Auxiliary notions\<close>

text \<open>The factor that one entry contributes to each loop of \<^verbatim>\<open>reconstructZ\<close>.\<close>

definition dTerm :: "PublicKey \<Rightarrow> int \<times> int \<Rightarrow> panic + int" where
  "dTerm pk e = pbind (index (pk_R pk) (fst e)) (\<lambda>Ri. deref (Exp Ri (snd e) (pk_N pk)))"

definition rTerm :: "PublicKey \<Rightarrow> int \<times> int \<Rightarrow> panic + int" where
  "rTerm pk e = pbind (index (pk_R pk) (fst e)) (\<lambda>Ri. modPow Ri (Some (snd e)) (pk_N pk))"

section \<open>A small instance\<close>

text \<open>
  A public key over the modulus 11 with two attribute slots, a two-bit checksum for the
  hash, and a generator that alternates 0 and 1. The signature \<open>(2, 17, 1)\<close> satisfies
  \<open>A ^ e * S ^ v * R\<^sub>0 ^ m\<^sub>0 * R\<^sub>1 ^ m\<^sub>1 mod N = Z\<close> for the attributes \<open>[1, 1]\<close>:
  \<open>2 ^ 17 * 2 * 3 * 4 mod 11 = 3\<close>.
\<close>

definition ex_params :: SystemParameters where
  "ex_params = \<lparr>Le = 5, LeCommit = 3, Lv = 6, LvCommit = 3, LvPrimeCommit = 3,
                Lm = 1, LmCommit = 3, Ln = 4\<rparr>"

definition ex_pk :: PublicKey where
  "ex_pk = \<lparr>pk_N = 11, pk_S = 2, pk_Z = 3, pk_R = [3, 4], pk_Params = ex_params\<rparr>"

definition ex_H :: "int list \<Rightarrow> int" where
  "ex_H xs = sum_list xs mod 4"

definition ex_rng :: rng where
  "ex_rng n = Some (int (n mod 2))"

definition ex_credential :: IdemixCredential where
  "ex_credential = \<lparr>ic_Signature = \<lparr>sig_A = 2, sig_E = 17, sig_V = 1\<rparr>,
                    ic_Pk = ex_pk, ic_Attributes = [1, 1]\<rparr>"

text \<open>
  Two proofs of that credential, as \<open>CreateDisclosureProof\<close> returns them under
  \<open>ex_rng\<close>: the first discloses attribute 1 (context 3), the second attribute 0
  (context 3), so its responses have no entry for the secret key.
\<close>

definition ex_proof :: ProofD where
  "ex_proof = \<lparr>pd_c = 3, pd_A = 2, pd_eResponse = 4, pd_vResponse = 3,
               pd_aResponses = [(0, 4)], pd_aDisclosed = [(1, 1)]\<rparr>"

definition ex_proof_no_sk :: ProofD where
  "ex_proof_no_sk = \<lparr>pd_c = 1, pd_A = 2, pd_eResponse = 2, pd_vResponse = 1,
                     pd_aResponses = [(1, 2)], pd_aDisclosed = [(0, 1)]\<rparr>"

text \<open>A third proof of that credential (context 3), which discloses nothing.\<close>

definition ex_proof_both_hidden :: ProofD where
  "ex_proof_both_hidden = \<lparr>pd_c = 3, pd_A = 2, pd_eResponse = 4, pd_vResponse = 3,
                           pd_aResponses = [(0, 4), (1, 3)], pd_aDisclosed = []\<rparr>"


text \<open>
  The builder that \<open>CreateDisclosureProofBuilder\<close> returns for \<open>ex_credential\<close> when
  index 0 is disclosed, and the one it returns when attribute 1 is disclosed and the
  generator fails at its second call, the one that samples \<open>eCommit\<close>.
\<close>

definition ex_builder_sk_disclosed :: DisclosureProofBuilder where
  "ex_builder_sk_disclosed =
     \<lparr>b_randomizedSignature = \<lparr>sig_A = 2, sig_E = 17, sig_V = 1\<rparr>,
      b_eCommit = Some 1, b_vCommit = Some 0, b_attrRandomizers = [(1, Some 1)],
      b_z = None, b_disclosedAttributes = [0], b_undisclosedAttributes = [1],
      b_pk = ex_pk, b_attributes = [1, 1]\<rparr>"

definition ex_rng_failing :: rng where
  "ex_rng_failing n = (if n = 1 then None else Some 0)"

definition ex_builder_nil :: DisclosureProofBuilder where
  "ex_builder_nil =
     \<lparr>b_randomizedSignature = \<lparr>sig_A = 2, sig_E = 17, sig_V = 1\<rparr>,
      b_eCommit = None, b_vCommit = Some 0, b_attrRandomizers = [(0, Some 0)],
      b_z = None, b_disclosedAttributes = [1], b_undisclosedAttributes = [0],
      b_pk = ex_pk, b_attributes = [1, 1]\<rparr>"

section \<open>Basic facts\<close>

lemma pbind_Inl [simp]: "pbind (Inl e) f = Inl e"
  by (simp add: pbind_def)

lemma pbind_Inr [simp]: "pbind (Inr x) f = f x"
  by (simp add: pbind_def)

lemma pbind_eq_Inr_iff: "pbind r f = Inr y \<longleftrightarrow> (\<exists>x. r = Inr x \<and> f x = Inr y)"
  by (cases r) simp_all

lemma deref_Some [simp]: "deref (Some x) = Inr x"
  by (simp add: deref_def)

lemma deref_None [simp]: "deref None = Inl NilPointer"
  by (simp add: deref_def)

lemma outcome_Inl [simp]: "outcome (Inl e) = None"
  by (simp add: outcome_def)

lemma outcome_Inr [simp]: "outcome (Inr x) = Some x"
  by (simp add: outcome_def)

lemma outcome_pbind: "outcome (pbind r f) = Option.bind (outcome r) (\<lambda>x. outcome (f x))"
  by (cases r) simp_all

lemma unat_plus_1: "(x :: uint) \<noteq> - 1 \<Longrightarrow> unat (x + 1) = unat x + 1"
  by (metis Suc_eq_plus1 add.commute unatSuc add_eq_0_iff2)

section \<open>Verification of a disclosure proof\<close>

lemma responsesInRange_iff:
  "responsesInRange mn mx xs \<longleftrightarrow> (\<forall>(i, r) \<in> set xs. mn \<le> r \<and> r \<le> mx)"
  by (induction xs) (auto split: if_splits)

lemma correctResponseSizes_iff:
  "correctResponseSizes p pk \<longleftrightarrow>
     (\<forall>(i, r) \<in> set (pd_aResponses p).
        - (2 ^ unat (LmCommit (pk_Params pk) + 1) - 1) \<le> r
        \<and> r \<le> 2 ^ unat (LmCommit (pk_Params pk) + 1) - 1)
     \<and> - (2 ^ unat (LeCommit (pk_Params pk) + 1) - 1) \<le> pd_eResponse p
     \<and> pd_eResponse p \<le> 2 ^ unat (LeCommit (pk_Params pk) + 1) - 1"
  by (auto simp: correctResponseSizes_def Let_def responsesInRange_iff Lsh1_def)

lemma ProofD_Verify_eq:
  "ProofD_Verify H p pk context nonce =
     pbind (reconstructZ p pk) (\<lambda>z.
       Inr (correctResponseSizes p pk \<and> pd_c p = H [context, pd_A p, z, nonce]))"
  by (cases "reconstructZ p pk")
     (simp_all add: ProofD_Verify_def ProofD_ChallengeContribution_def
        ProofD_VerifyWithChallenge_def createChallenge_def)

text \<open>
  C2. \<open>ProofD.Verify\<close> returns true exactly when every \<open>aResponse\<close> lies in
  \<open>[-(2 ^ (LmCommit + 1) - 1), 2 ^ (LmCommit + 1) - 1]\<close>, \<open>eResponse\<close> lies in
  \<open>[-(2 ^ (LeCommit + 1) - 1), 2 ^ (LeCommit + 1) - 1]\<close>, and the challenge hashed from
  the context, \<open>A\<close>, the reconstructed \<open>Z\<close> and the nonce is the proof's \<open>c\<close>. A
  response out of range is rejected even where that challenge matches. The bit lengths
  are below the largest \<^verbatim>\<open>uint\<close>, so that \<open>LmCommit + 1\<close> and \<open>LeCommit + 1\<close> do not
  wrap.
\<close>

theorem ProofD_Verify_iff:
  assumes "LmCommit (pk_Params pk) \<noteq> - 1" and "LeCommit (pk_Params pk) \<noteq> - 1"
  shows "(ProofD_Verify H p pk context nonce = Inr True \<longleftrightarrow>
           ((\<forall>(i, r) \<in> set (pd_aResponses p).
               - (2 ^ (unat (LmCommit (pk_Params pk)) + 1) - 1) \<le> r
               \<and> r \<le> 2 ^ (unat (LmCommit (pk_Params pk)) + 1) - 1)
            \<and> - (2 ^ (unat (LeCommit (pk_Params pk)) + 1) - 1) \<le> pd_eResponse p
            \<and> pd_eResponse p \<le> 2 ^ (unat (LeCommit (pk_Params pk)) + 1) - 1)
           \<and> (\<exists>z. reconstructZ p pk = Inr z \<and> H [context, pd_A p, z, nonce] = pd_c p))
       \<and> (\<forall>z. reconstructZ p pk = Inr z \<and> H [context, pd_A p, z, nonce] = pd_c p
             \<and> ((\<exists>(i, r) \<in> set (pd_aResponses p).
                    r < - (2 ^ (unat (LmCommit (pk_Params pk)) + 1) - 1)
                    \<or> 2 ^ (unat (LmCommit (pk_Params pk)) + 1) - 1 < r)
                 \<or> pd_eResponse p < - (2 ^ (unat (LeCommit (pk_Params pk)) + 1) - 1)
                 \<or> 2 ^ (unat (LeCommit (pk_Params pk)) + 1) - 1 < pd_eResponse p)
             \<longrightarrow> ProofD_Verify H p pk context nonce = Inr False)"
proof -
  have sz: "correctResponseSizes p pk \<longleftrightarrow>
     (\<forall>(i, r) \<in> set (pd_aResponses p).
        - (2 ^ (unat (LmCommit (pk_Params pk)) + 1) - 1) \<le> r
        \<and> r \<le> 2 ^ (unat (LmCommit (pk_Params pk)) + 1) - 1)
     \<and> - (2 ^ (unat (LeCommit (pk_Params pk)) + 1) - 1) \<le> pd_eResponse p
     \<and> pd_eResponse p \<le> 2 ^ (unat (LeCommit (pk_Params pk)) + 1) - 1"
    using assms by (simp add: correctResponseSizes_iff unat_plus_1)
  have a: "ProofD_Verify H p pk context nonce = Inr True \<longleftrightarrow>
      correctResponseSizes p pk
      \<and> (\<exists>z. reconstructZ p pk = Inr z \<and> H [context, pd_A p, z, nonce] = pd_c p)"
    by (cases "reconstructZ p pk") (auto simp: ProofD_Verify_eq)
  have b: "ProofD_Verify H p pk context nonce = Inr False"
    if "reconstructZ p pk = Inr z" and "\<not> correctResponseSizes p pk" for z
    using that by (simp add: ProofD_Verify_eq)
  show ?thesis
  proof (intro conjI allI impI)
    show "ProofD_Verify H p pk context nonce = Inr True \<longleftrightarrow>
           ((\<forall>(i, r) \<in> set (pd_aResponses p).
               - (2 ^ (unat (LmCommit (pk_Params pk)) + 1) - 1) \<le> r
               \<and> r \<le> 2 ^ (unat (LmCommit (pk_Params pk)) + 1) - 1)
            \<and> - (2 ^ (unat (LeCommit (pk_Params pk)) + 1) - 1) \<le> pd_eResponse p
            \<and> pd_eResponse p \<le> 2 ^ (unat (LeCommit (pk_Params pk)) + 1) - 1)
           \<and> (\<exists>z. reconstructZ p pk = Inr z \<and> H [context, pd_A p, z, nonce] = pd_c p)"
      unfolding a sz by blast
  next
    fix z
    assume h: "reconstructZ p pk = Inr z \<and> H [context, pd_A p, z, nonce] = pd_c p
             \<and> ((\<exists>(i, r) \<in> set (pd_aResponses p).
                    r < - (2 ^ (unat (LmCommit (pk_Params pk)) + 1) - 1)
                    \<or> 2 ^ (unat (LmCommit (pk_Params pk)) + 1) - 1 < r)
                 \<or> pd_eResponse p < - (2 ^ (unat (LeCommit (pk_Params pk)) + 1) - 1)
                 \<or> 2 ^ (unat (LeCommit (pk_Params pk)) + 1) - 1 < pd_eResponse p)"
    then have "\<not> correctResponseSizes p pk"
      unfolding sz by fastforce
    with h show "ProofD_Verify H p pk context nonce = Inr False"
      using b by blast
  qed
qed

theorem ProofD_Verify_iff_witness:
  "LmCommit (pk_Params ex_pk) \<noteq> - 1 \<and> LeCommit (pk_Params ex_pk) \<noteq> - 1
   \<and> ProofD_Verify ex_H ex_proof ex_pk 3 0 = Inr True
   \<and> ProofD_Verify ex_H (ex_proof\<lparr>pd_eResponse := 24\<rparr>) ex_pk 3 0 = Inr False"
proof -
  have h1: "LmCommit (pk_Params ex_pk) \<noteq> - 1" and h2: "LeCommit (pk_Params ex_pk) \<noteq> - 1"
    by (simp_all add: ex_pk_def ex_params_def)
  have z: "reconstructZ ex_proof ex_pk = Inr 6"
    by code_simp
  have z': "reconstructZ (ex_proof\<lparr>pd_eResponse := 24\<rparr>) ex_pk = Inr 6"
    by code_simp
  have c: "ex_H [3, pd_A ex_proof, 6, 0] = pd_c ex_proof"
    by code_simp
  have r: "\<forall>(i, r) \<in> set (pd_aResponses ex_proof).
             - (2 ^ (unat (LmCommit (pk_Params ex_pk)) + 1) - 1) \<le> r
             \<and> r \<le> 2 ^ (unat (LmCommit (pk_Params ex_pk)) + 1) - 1"
    by (simp add: ex_proof_def ex_pk_def ex_params_def)
  have e: "- (2 ^ (unat (LeCommit (pk_Params ex_pk)) + 1) - 1) \<le> pd_eResponse ex_proof
           \<and> pd_eResponse ex_proof \<le> 2 ^ (unat (LeCommit (pk_Params ex_pk)) + 1) - 1"
    by (simp add: ex_proof_def ex_pk_def ex_params_def)
  have e': "2 ^ (unat (LeCommit (pk_Params ex_pk)) + 1) - 1
              < pd_eResponse (ex_proof\<lparr>pd_eResponse := 24\<rparr>)"
    by (simp add: ex_pk_def ex_params_def)
  have "ProofD_Verify ex_H ex_proof ex_pk 3 0 = Inr True"
    using ProofD_Verify_iff [OF h1 h2, of ex_H ex_proof 3 0] z c r e by blast
  moreover have "ProofD_Verify ex_H (ex_proof\<lparr>pd_eResponse := 24\<rparr>) ex_pk 3 0 = Inr False"
    using ProofD_Verify_iff [OF h1 h2, of ex_H "ex_proof\<lparr>pd_eResponse := 24\<rparr>" 3 0] z' c e'
    by simp
  ultimately show ?thesis
    using h1 h2 by blast
qed

section \<open>Unbound lists\<close>

lemma Proof_Verify_eq:
  "Proof_Verify H proof pk context nonce =
     pbind (ChallengeContribution proof pk) (\<lambda>contribution.
       Inr (VerifyWithChallenge proof pk (createChallenge H context nonce contribution)))"
  by (cases "proof") (simp_all add: ProofU_Verify_def ProofD_Verify_def)

lemma verifyUnbound_iff:
  "verifyUnbound H context nonce xs = Inr True \<longleftrightarrow>
     (\<forall>(proof, pk) \<in> set xs. Proof_Verify H proof pk context nonce = Inr True)"
proof (induction xs)
  case Nil
  show ?case by simp
next
  case (Cons x xs)
  obtain "proof" pk where x: "x = (proof, pk)" by (cases x)
  show ?case
    using Cons.IH
    by (cases "ChallengeContribution proof pk") (auto simp: x Proof_Verify_eq)
qed

text \<open>
  C7. For a non-empty proof list and as many public keys, \<open>Verify\<close> with
  \<open>shouldBeBound = false\<close> returns true exactly when every proof \<open>pl[i]\<close> verifies
  on its own against \<open>publicKeys[i]\<close>, the context and the nonce, each against the
  challenge rebuilt from its own contribution.
\<close>

theorem ProofList_Verify_unbound_iff:
  assumes "pl \<noteq> []" and "length pl = length publicKeys"
  shows "ProofList_Verify H pl publicKeys context nonce False = Inr True \<longleftrightarrow>
           (\<forall>i < length pl. Proof_Verify H (pl ! i) (publicKeys ! i) context nonce = Inr True)"
proof -
  have "ProofList_Verify H pl publicKeys context nonce False
          = verifyUnbound H context nonce (zip pl publicKeys)"
    using assms by (simp add: ProofList_Verify_def)
  moreover have
    "(\<forall>(proof, pk) \<in> set (zip pl publicKeys). Proof_Verify H proof pk context nonce = Inr True)
      \<longleftrightarrow> (\<forall>i < length pl. Proof_Verify H (pl ! i) (publicKeys ! i) context nonce = Inr True)"
    using assms(2) by (auto simp: set_zip)
  ultimately show ?thesis
    by (simp only: verifyUnbound_iff)
qed

theorem ProofList_Verify_unbound_iff_witness:
  "[PD ex_proof] \<noteq> [] \<and> length [PD ex_proof] = length [ex_pk]
   \<and> ProofList_Verify ex_H [PD ex_proof] [ex_pk] 3 0 False = Inr True"
proof -
  have h1: "[PD ex_proof] \<noteq> []" and h2: "length [PD ex_proof] = length [ex_pk]"
    by simp_all
  have v: "Proof_Verify ex_H (PD ex_proof) ex_pk 3 0 = Inr True"
    by code_simp
  show ?thesis
    using ProofList_Verify_unbound_iff [OF h1 h2, of ex_H 3 0] v by simp
qed

section \<open>Enumeration order\<close>

lemma outcome_disclosedProduct:
  "outcome (disclosedProduct pk n xs) =
     (if \<forall>e \<in> set xs. outcome (dTerm pk e) \<noteq> None
      then Some (n * prod_list (map (\<lambda>e. the (outcome (dTerm pk e))) xs)) else None)"
proof (induction xs arbitrary: n)
  case Nil
  show ?case by simp
next
  case (Cons x xs)
  obtain i a where x: "x = (i, a)" by (cases x)
  show ?case
  proof (cases "dTerm pk (i, a)")
    case (Inl e)
    then show ?thesis
      by (cases "index (pk_R pk) i") (simp_all add: x dTerm_def)
  next
    case (Inr t)
    then show ?thesis
      by (cases "index (pk_R pk) i") (simp_all add: x dTerm_def Cons.IH mult.assoc)
  qed
qed

lemma outcome_responseProduct:
  "outcome (responseProduct pk n xs) =
     (if \<forall>e \<in> set xs. outcome (rTerm pk e) \<noteq> None
      then Some (n * prod_list (map (\<lambda>e. the (outcome (rTerm pk e))) xs)) else None)"
proof (induction xs arbitrary: n)
  case Nil
  show ?case by simp
next
  case (Cons x xs)
  obtain i a where x: "x = (i, a)" by (cases x)
  show ?case
  proof (cases "rTerm pk (i, a)")
    case (Inl e)
    then show ?thesis
      by (cases "index (pk_R pk) i") (simp_all add: x rTerm_def)
  next
    case (Inr t)
    then show ?thesis
      by (cases "index (pk_R pk) i") (simp_all add: x rTerm_def Cons.IH mult.assoc)
  qed
qed

lemma prod_list_map_mset:
  fixes f :: "'a \<Rightarrow> int"
  assumes "mset xs = mset ys"
  shows "prod_list (map f xs) = prod_list (map f ys)"
proof -
  have "prod_list (map f xs) = prod_mset (image_mset f (mset xs))"
    by (metis mset_map prod_mset_prod_list)
  also have "\<dots> = prod_mset (image_mset f (mset ys))"
    by (simp add: assms)
  also have "\<dots> = prod_list (map f ys)"
    by (metis mset_map prod_mset_prod_list)
  finally show ?thesis .
qed

lemma outcome_disclosedProduct_mset:
  assumes "mset xs = mset ys"
  shows "outcome (disclosedProduct pk n xs) = outcome (disclosedProduct pk n ys)"
  using mset_eq_setD [OF assms] prod_list_map_mset [OF assms]
  by (simp add: outcome_disclosedProduct)

lemma outcome_responseProduct_mset:
  assumes "mset xs = mset ys"
  shows "outcome (responseProduct pk n xs) = outcome (responseProduct pk n ys)"
  using mset_eq_setD [OF assms] prod_list_map_mset [OF assms]
  by (simp add: outcome_responseProduct)

lemma outcome_reconstructZ_mset:
  assumes "mset rs' = mset (pd_aResponses p)" and "mset ds' = mset (pd_aDisclosed p)"
  shows "outcome (reconstructZ (p\<lparr>pd_aResponses := rs', pd_aDisclosed := ds'\<rparr>) pk)
           = outcome (reconstructZ p pk)"
  by (simp add: reconstructZ_def outcome_pbind Let_def
        outcome_disclosedProduct_mset [OF assms(2)] outcome_responseProduct_mset [OF assms(1)])

lemma correctResponseSizes_mset:
  assumes "mset rs' = mset (pd_aResponses p)"
  shows "correctResponseSizes (p\<lparr>pd_aResponses := rs', pd_aDisclosed := ds'\<rparr>) pk
           = correctResponseSizes p pk"
  using mset_eq_setD [OF assms]
  by (simp add: correctResponseSizes_def Let_def responsesInRange_iff)

text \<open>
  C9. Two enumerations of the same mappings are two proofs whose \<open>aResponses\<close> and
  \<open>aDisclosed\<close> hold the same entries in another order. \<open>reconstructZ\<close>, and with it
  \<open>ChallengeContribution\<close> and \<open>Verify\<close>, return the same value under both, and panic
  under one exactly when they panic under the other (\<open>outcome\<close> forgets only which
  panic came first).
\<close>

theorem reconstructZ_enumeration_order:
  assumes "mset rs' = mset (pd_aResponses p)" and "mset ds' = mset (pd_aDisclosed p)"
  shows "outcome (reconstructZ (p\<lparr>pd_aResponses := rs', pd_aDisclosed := ds'\<rparr>) pk)
           = outcome (reconstructZ p pk)
       \<and> outcome (ProofD_ChallengeContribution
                    (p\<lparr>pd_aResponses := rs', pd_aDisclosed := ds'\<rparr>) pk)
           = outcome (ProofD_ChallengeContribution p pk)
       \<and> outcome (ProofD_Verify H (p\<lparr>pd_aResponses := rs', pd_aDisclosed := ds'\<rparr>) pk
                    context nonce)
           = outcome (ProofD_Verify H p pk context nonce)"
  by (simp add: ProofD_Verify_eq ProofD_ChallengeContribution_def outcome_pbind
        outcome_reconstructZ_mset [OF assms] correctResponseSizes_mset [OF assms(1)])

theorem reconstructZ_enumeration_order_witness:
  "mset [(1, 3), (0, 4)] = mset (pd_aResponses ex_proof_both_hidden)
   \<and> mset [] = mset (pd_aDisclosed ex_proof_both_hidden)
   \<and> outcome (reconstructZ (ex_proof_both_hidden\<lparr>pd_aResponses := [(1, 3), (0, 4)],
                  pd_aDisclosed := []\<rparr>) ex_pk) = Some 6
   \<and> outcome (reconstructZ ex_proof_both_hidden ex_pk) = Some 6"
proof -
  have h1: "mset [(1, 3), (0, 4)] = mset (pd_aResponses ex_proof_both_hidden)"
    by (simp add: ex_proof_both_hidden_def)
  have h2: "mset [] = mset (pd_aDisclosed ex_proof_both_hidden)"
    by (simp add: ex_proof_both_hidden_def)
  have v: "reconstructZ ex_proof_both_hidden ex_pk = Inr 6"
    by code_simp
  show ?thesis
    using reconstructZ_enumeration_order [OF h1 h2, of ex_pk ex_H 3 0] h1 h2 v by simp
qed

section \<open>Bound lists and the secret-key response\<close>

lemma ProofD_SecretKeyResponse_None_iff:
  "ProofD_SecretKeyResponse p = None \<longleftrightarrow> 0 \<notin> fst ` set (pd_aResponses p)"
  by (simp add: ProofD_SecretKeyResponse_def map_of_eq_None_iff)

lemma verifyBound_returns:
  assumes "\<forall>(proof, pk) \<in> set xs. SecretKeyResponse proof \<noteq> None"
  shows "\<exists>b. verifyBound (Some s) c xs = Inr b"
  using assms by (induction xs) (auto simp: Cmp_def)

lemma ProofList_Verify_bound_returns:
  assumes sk: "\<forall>proof \<in> set pl. SecretKeyResponse proof \<noteq> None"
    and cs: "challengeContributions (zip pl publicKeys) = Inr cs"
  shows "\<exists>b. ProofList_Verify H pl publicKeys context nonce True = Inr b"
proof (cases "pl = [] \<or> length pl \<noteq> length publicKeys")
  case True
  then show ?thesis
    by (auto simp: ProofList_Verify_def)
next
  case False
  then have ne: "pl \<noteq> []" and len: "length pl = length publicKeys"
    by simp_all
  from ne sk obtain s where s: "SecretKeyResponse (pl ! 0) = Some s"
    by (cases pl) auto
  have "\<forall>(proof, pk) \<in> set (zip pl publicKeys). SecretKeyResponse proof \<noteq> None"
    using sk by (auto dest: set_zip_leftD)
  from verifyBound_returns [OF this]
  obtain b where "verifyBound (Some s) (createChallenge H context nonce cs)
                    (zip pl publicKeys) = Inr b"
    by blast
  then show ?thesis
    using ne len cs s by (auto simp: ProofList_Verify_def)
qed

text \<open>
  C10. A \<open>ProofD\<close> without key 0 in \<open>aResponses\<close> has no secret-key response (the map
  lookup is nil), and comparing the first proof's response with it dereferences nil.
  \<open>Verify\<close> with \<open>shouldBeBound = true\<close> returns a boolean when every proof has a
  secret-key response (and the contributions can be computed); on the list of
  \<open>ex_proof\<close> and \<open>ex_proof_no_sk\<close> it ends in the nil-pointer panic.
\<close>

theorem ProofList_Verify_bound_missing_key:
  "(0 \<notin> fst ` set (pd_aResponses q) \<longrightarrow>
      SecretKeyResponse (PD q) = None
      \<and> verifyBound (Some s) c ((PD q, pk) # rest) = Inl NilPointer)
   \<and> ((\<forall>proof \<in> set pl. SecretKeyResponse proof \<noteq> None)
        \<and> challengeContributions (zip pl publicKeys) = Inr cs
      \<longrightarrow> (\<exists>b. ProofList_Verify H pl publicKeys context nonce True = Inr b))
   \<and> ProofList_Verify ex_H [PD ex_proof, PD ex_proof_no_sk] [ex_pk, ex_pk] 1 0 True
       = Inl NilPointer"
proof (intro conjI impI)
  assume "0 \<notin> fst ` set (pd_aResponses q)"
  then have "ProofD_SecretKeyResponse q = None"
    by (simp add: ProofD_SecretKeyResponse_None_iff)
  then show "SecretKeyResponse (PD q) = None"
    and "verifyBound (Some s) c ((PD q, pk) # rest) = Inl NilPointer"
    by (simp_all add: Cmp_def)
next
  assume "(\<forall>proof \<in> set pl. SecretKeyResponse proof \<noteq> None)
        \<and> challengeContributions (zip pl publicKeys) = Inr cs"
  then show "\<exists>b. ProofList_Verify H pl publicKeys context nonce True = Inr b"
    using ProofList_Verify_bound_returns by blast
next
  show "ProofList_Verify ex_H [PD ex_proof, PD ex_proof_no_sk] [ex_pk, ex_pk] 1 0 True
       = Inl NilPointer"
    by code_simp
qed

theorem ProofList_Verify_bound_missing_key_witness:
  "0 \<notin> fst ` set (pd_aResponses ex_proof_no_sk)
   \<and> SecretKeyResponse (PD ex_proof_no_sk) = None
   \<and> verifyBound (Some 4) 3 [(PD ex_proof_no_sk, ex_pk)] = Inl NilPointer
   \<and> SecretKeyResponse (PD ex_proof) \<noteq> None
   \<and> challengeContributions (zip [PD ex_proof] [ex_pk]) = Inr [2, 6]
   \<and> (\<exists>b. ProofList_Verify ex_H [PD ex_proof] [ex_pk] 3 0 True = Inr b)"
proof -
  have h1: "0 \<notin> fst ` set (pd_aResponses ex_proof_no_sk)"
    by (simp add: ex_proof_no_sk_def)
  have h2: "\<forall>proof \<in> set [PD ex_proof]. SecretKeyResponse proof \<noteq> None"
    by (simp add: ProofD_SecretKeyResponse_def ex_proof_def)
  have h3: "challengeContributions (zip [PD ex_proof] [ex_pk]) = Inr [2, 6]"
    by code_simp
  show ?thesis
    using ProofList_Verify_bound_missing_key
      [of ex_proof_no_sk 4 3 ex_pk "[]" "[PD ex_proof]" "[ex_pk]" "[2, 6]" ex_H 3 0]
      h1 h2 h3
    by fastforce
qed

section \<open>The issuer's proof\<close>



section \<open>Which attributes a proof discloses\<close>

lemma markDisclosed_Inl:
  "\<exists>v \<in> set ds. \<not> (0 \<le> v \<and> v < int (length check)) \<Longrightarrow>
     markDisclosed check ds = Inl IndexOutOfRange"
  by (induction ds arbitrary: check) auto

lemma markDisclosed_Inr:
  "\<forall>v \<in> set ds. 0 \<le> v \<and> v < int (length check) \<Longrightarrow>
     \<exists>check'. markDisclosed check ds = Inr check' \<and> length check' = length check
       \<and> (\<forall>i < length check. check' ! i \<longleftrightarrow> check ! i \<or> int i \<in> set ds)"
proof (induction ds arbitrary: check)
  case Nil
  then show ?case by simp
next
  case (Cons v vs)
  then have v: "0 \<le> v" "v < int (length check)"
    and vs: "\<forall>w \<in> set vs. 0 \<le> w \<and> w < int (length (check[nat v := True]))"
    by simp_all
  from Cons.IH [OF vs] obtain check' where
    c: "markDisclosed (check[nat v := True]) vs = Inr check'"
       "length check' = length check"
       "\<forall>i < length check. check' ! i \<longleftrightarrow> (check[nat v := True]) ! i \<or> int i \<in> set vs"
    by auto
  have "check' ! i \<longleftrightarrow> check ! i \<or> int i \<in> set (v # vs)" if "i < length check" for i
    using c(3) that v by (auto simp: nth_list_update)
  with c v show ?case
    by simp
qed

lemma getUndisclosedAttributes_Inl:
  assumes "\<exists>v \<in> set ds. \<not> (0 \<le> v \<and> v < int n)"
  shows "getUndisclosedAttributes ds n = Inl IndexOutOfRange"
  using markDisclosed_Inl [of ds "replicate n False"] assms
  by (simp add: getUndisclosedAttributes_def)

lemma getUndisclosedAttributes_Inr:
  assumes "\<forall>v \<in> set ds. 0 \<le> v \<and> v < int n"
  shows "getUndisclosedAttributes ds n = Inr (filter (\<lambda>i. i \<notin> set ds) (map int [0..<n]))"
proof -
  from markDisclosed_Inr [of ds "replicate n False"] assms obtain check' where
    c: "markDisclosed (replicate n False) ds = Inr check'" "length check' = n"
       "\<forall>i < n. check' ! i \<longleftrightarrow> int i \<in> set ds"
    by auto
  have "filter (\<lambda>i. \<not> check' ! i) [0..<n] = filter (\<lambda>i. int i \<notin> set ds) [0..<n]"
    using c(3) by (intro filter_cong) auto
  then show ?thesis
    using c by (simp add: getUndisclosedAttributes_def filter_map comp_def)
qed

lemma getUndisclosedAttributes_cases:
  "getUndisclosedAttributes ds n =
     (if \<forall>v \<in> set ds. 0 \<le> v \<and> v < int n
      then Inr (filter (\<lambda>i. i \<notin> set ds) (map int [0..<n])) else Inl IndexOutOfRange)"
  using getUndisclosedAttributes_Inl [of ds n] getUndisclosedAttributes_Inr [of ds n]
  by auto

lemma set_undisclosed:
  "set (filter (\<lambda>i. i \<notin> set ds) (map int [0..<n])) = {0..<int n} - set ds"
  by (auto simp: image_iff) (metis atLeastLessThan_iff nat_int nat_less_iff atLeast0LessThan lessThan_iff int_nat_eq)

lemma distinct_undisclosed:
  "distinct (filter (\<lambda>i. i \<notin> set ds) (map int [0..<n]))"
  by (simp add: distinct_map inj_on_def)

lemma hiddenResponses_keys:
  "hiddenResponses c attrs m acc vs = Inr r \<Longrightarrow> fst ` set r = fst ` set acc \<union> set vs"
proof (induction vs arbitrary: acc)
  case Nil
  then show ?case by simp
next
  case (Cons v vs)
  from Cons.prems obtain a x where
    r: "hiddenResponses c attrs m (AList.update v (x + c * a) acc) vs = Inr r"
    by (auto simp: pbind_eq_Inr_iff)
  from Cons.IH [OF r] show ?case
    by (simp add: dom_update)
qed

lemma disclosedValues_map_of:
  "disclosedValues attrs acc vs = Inr r \<Longrightarrow>
     (\<forall>v \<in> set vs. 0 \<le> v \<and> v < int (length attrs))
     \<and> map_of r = (\<lambda>v. if v \<in> set vs then Some (attrs ! nat v) else map_of acc v)"
proof (induction vs arbitrary: acc)
  case Nil
  then show ?case by simp
next
  case (Cons v vs)
  from Cons.prems obtain a where a: "index attrs v = Inr a"
    and r: "disclosedValues attrs (AList.update v a acc) vs = Inr r"
    by (auto simp: pbind_eq_Inr_iff)
  from a have v: "0 \<le> v" "v < int (length attrs)" "a = attrs ! nat v"
    by (auto simp: index_def split: if_splits)
  from Cons.IH [OF r] v show ?case
    by (auto simp: update_conv' fun_eq_iff)
qed

lemma disclosedValues_keys:
  "disclosedValues attrs acc vs = Inr r \<Longrightarrow> fst ` set r = fst ` set acc \<union> set vs"
proof (induction vs arbitrary: acc)
  case Nil
  then show ?case by simp
next
  case (Cons v vs)
  from Cons.prems obtain a where
    r: "disclosedValues attrs (AList.update v a acc) vs = Inr r"
    by (auto simp: pbind_eq_Inr_iff)
  from Cons.IH [OF r] show ?case
    by (simp add: dom_update)
qed

lemma CreateDisclosureProof_Inr:
  assumes "CreateDisclosureProof H ic ds context nonce g = Inr p"
  shows "\<exists>us c m. getUndisclosedAttributes ds (length (ic_Attributes ic)) = Inr us
           \<and> hiddenResponses c (ic_Attributes ic) m [] us = Inr (pd_aResponses p)
           \<and> disclosedValues (ic_Attributes ic) [] ds = Inr (pd_aDisclosed p)"
  using assms
  by (auto simp: CreateDisclosureProof_def pbind_eq_Inr_iff Let_def randomBigInt_def split_beta)
     blast

lemma CreateDisclosureProofBuilder_Inr:
  assumes "CreateDisclosureProofBuilder ic ds g = Inr d"
  shows "getUndisclosedAttributes ds (length (ic_Attributes ic)) = Inr (b_undisclosedAttributes d)
           \<and> b_disclosedAttributes d = ds \<and> b_attributes d = ic_Attributes ic \<and> b_pk d = ic_Pk ic"
  using assms
  by (auto simp: CreateDisclosureProofBuilder_def pbind_eq_Inr_iff Let_def randomBigInt_def
      split_beta)

lemma Commit_Inr:
  assumes "Commit d sk = Inr (d', vals)"
  shows "b_undisclosedAttributes d' = b_undisclosedAttributes d
           \<and> b_disclosedAttributes d' = b_disclosedAttributes d
           \<and> b_attributes d' = b_attributes d \<and> b_pk d' = b_pk d
           \<and> b_randomizedSignature d' = b_randomizedSignature d
           \<and> b_eCommit d' = b_eCommit d \<and> b_vCommit d' = b_vCommit d
           \<and> b_attrRandomizers d' = AList.update 0 sk (b_attrRandomizers d)"
  using assms
  by (auto simp: Commit_def pbind_eq_Inr_iff Let_def)

lemma CreateProof_Inr:
  assumes "CreateProof d challenge = Inr (PD p)"
  shows "hiddenResponses challenge (b_attributes d) (b_attrRandomizers d) []
             (b_undisclosedAttributes d) = Inr (pd_aResponses p)
           \<and> disclosedValues (b_attributes d) [] (b_disclosedAttributes d) = Inr (pd_aDisclosed p)"
  using assms
  by (auto simp: CreateProof_def pbind_eq_Inr_iff Let_def)

lemma partition_core:
  assumes us: "getUndisclosedAttributes ds (length attrs) = Inr us"
    and hr: "hiddenResponses c attrs m [] us = Inr rs"
    and dv: "disclosedValues attrs [] ds = Inr dis"
  shows "fst ` set rs \<inter> fst ` set dis = {}
       \<and> fst ` set rs \<union> fst ` set dis = {0..<int (length attrs)}
       \<and> (0 \<in> fst ` set rs \<longleftrightarrow> 0 \<notin> set ds \<and> attrs \<noteq> [])
       \<and> (\<forall>i \<in> set ds. map_of dis i = Some (attrs ! nat i))"
proof -
  from us have rng: "\<forall>v \<in> set ds. 0 \<le> v \<and> v < int (length attrs)"
    and us_eq: "us = filter (\<lambda>i. i \<notin> set ds) (map int [0..<length attrs])"
    by (auto simp: getUndisclosedAttributes_cases split: if_splits)
  have "set us = {0..<int (length attrs)} - set ds"
    unfolding us_eq by (rule set_undisclosed)
  then have k1: "fst ` set rs = {0..<int (length attrs)} - set ds"
    using hiddenResponses_keys [OF hr] by simp
  have k2: "fst ` set dis = set ds"
    using disclosedValues_keys [OF dv] by simp
  have sub: "set ds \<subseteq> {0..<int (length attrs)}"
    using rng by auto
  have v: "\<forall>i \<in> set ds. map_of dis i = Some (attrs ! nat i)"
    using disclosedValues_map_of [OF dv] by simp
  show ?thesis
    using k1 k2 sub v by auto
qed

text \<open>
  C4, as the code has it. There is no \<open>InvalidDisclosure\<close>:
  \<open>CreateDisclosureProof\<close> and \<open>CreateDisclosureProofBuilder\<close> return no error value
  and never look for index 0. An index outside \<open>[0, L)\<close> stops both with the run-time
  panic of the slice access in \<open>getUndisclosedAttributes\<close>, so that no proof and no
  builder is returned. A list of indices inside \<open>[0, L)\<close>, index 0 among them or not,
  passes that step, and the attributes left hidden are those it does not name.
\<close>

theorem disclosure_out_of_range:
  "((\<exists>v \<in> set ds. v < 0 \<or> int (length (ic_Attributes ic)) \<le> v) \<longrightarrow>
      CreateDisclosureProof H ic ds context nonce g = Inl IndexOutOfRange
      \<and> outcome (CreateDisclosureProofBuilder ic ds g) = None)
   \<and> ((\<forall>v \<in> set ds. 0 \<le> v \<and> v < int (length (ic_Attributes ic))) \<longrightarrow>
      getUndisclosedAttributes ds (length (ic_Attributes ic))
        = Inr (filter (\<lambda>i. i \<notin> set ds) (map int [0..<length (ic_Attributes ic)])))"
proof (intro conjI impI)
  assume a: "\<exists>v \<in> set ds. v < 0 \<or> int (length (ic_Attributes ic)) \<le> v"
  then obtain v where "v \<in> set ds" "\<not> (0 \<le> v \<and> v < int (length (ic_Attributes ic)))"
    by (auto simp: not_less not_le)
  then have u: "getUndisclosedAttributes ds (length (ic_Attributes ic)) = Inl IndexOutOfRange"
    by (intro getUndisclosedAttributes_Inl) blast
  then show "CreateDisclosureProof H ic ds context nonce g = Inl IndexOutOfRange"
    by (simp add: CreateDisclosureProof_def)
  show "outcome (CreateDisclosureProofBuilder ic ds g) = None"
    using u by (simp add: CreateDisclosureProofBuilder_def outcome_pbind Let_def
        randomBigInt_def split_beta Option.bind_eq_None_conv)
next
  assume "\<forall>v \<in> set ds. 0 \<le> v \<and> v < int (length (ic_Attributes ic))"
  then show "getUndisclosedAttributes ds (length (ic_Attributes ic))
        = Inr (filter (\<lambda>i. i \<notin> set ds) (map int [0..<length (ic_Attributes ic)]))"
    by (rule getUndisclosedAttributes_Inr)
qed

theorem disclosure_out_of_range_witness:
  "(2::int) \<in> set [2] \<and> int (length (ic_Attributes ex_credential)) \<le> 2
   \<and> CreateDisclosureProof ex_H ex_credential [2] 3 0 ex_rng = Inl IndexOutOfRange
   \<and> outcome (CreateDisclosureProofBuilder ex_credential [2] ex_rng) = None
   \<and> (0::int) \<in> set [0] \<and> 0 < int (length (ic_Attributes ex_credential))
   \<and> getUndisclosedAttributes [0] (length (ic_Attributes ex_credential)) = Inr [1]"
proof -
  have h1: "\<exists>v \<in> set [2]. v < 0 \<or> int (length (ic_Attributes ex_credential)) \<le> v"
    by (simp add: ex_credential_def)
  have h2: "\<forall>v \<in> set [0]. 0 \<le> v \<and> v < int (length (ic_Attributes ex_credential))"
    by (simp add: ex_credential_def)
  have l: "length (ic_Attributes ex_credential) = 2"
    by (simp add: ex_credential_def)
  have f: "filter (\<lambda>i. i \<notin> set [0]) (map int [0..<2]) = [1]"
    by (simp add: upt_rec)
  show ?thesis
    using disclosure_out_of_range [of "[2]" ex_credential ex_H 3 0 ex_rng] h1
      disclosure_out_of_range [of "[0]" ex_credential ex_H 3 0 ex_rng] h2 l f
    by simp
qed

theorem disclosure_index_0_counterexample:
  "(0::int) \<in> set [0]
   \<and> CreateDisclosureProofBuilder ex_credential [0] ex_rng = Inr ex_builder_sk_disclosed
   \<and> CreateDisclosureProof ex_H ex_credential [0] 3 0 ex_rng \<noteq> Inl IndexOutOfRange"
  by code_simp

text \<open>
  C5, as the code has it. In every proof that \<open>CreateDisclosureProof\<close> returns, or
  that \<open>CreateProof\<close> returns for a builder of \<open>CreateDisclosureProofBuilder\<close> (before
  or after \<open>Commit\<close>), the keys of \<open>aResponses\<close> and of \<open>aDisclosed\<close> are disjoint,
  together they are \<open>{0, \<dots>, L - 1}\<close>, and \<open>aDisclosed[i]\<close> is the credential's
  attribute \<open>i\<close> for every disclosed \<open>i\<close>. Key 0 is among the responses exactly when
  index 0 is not in the disclosed list (and there is an attribute at all): nothing keeps
  the secret key from being disclosed.
\<close>

theorem disclosure_partition:
  assumes "CreateDisclosureProof H ic ds context nonce g = Inr p
           \<or> (\<exists>d. CreateDisclosureProofBuilder ic ds g = Inr d
                 \<and> (CreateProof d challenge = Inr (PD p)
                    \<or> (\<exists>d' vals. Commit d sk = Inr (d', vals)
                          \<and> CreateProof d' challenge = Inr (PD p))))"
  shows "fst ` set (pd_aResponses p) \<inter> fst ` set (pd_aDisclosed p) = {}
       \<and> fst ` set (pd_aResponses p) \<union> fst ` set (pd_aDisclosed p)
           = {0..<int (length (ic_Attributes ic))}
       \<and> (0 \<in> fst ` set (pd_aResponses p) \<longleftrightarrow> 0 \<notin> set ds \<and> ic_Attributes ic \<noteq> [])
       \<and> (\<forall>i \<in> set ds. map_of (pd_aDisclosed p) i = Some (ic_Attributes ic ! nat i))"
proof -
  have "\<exists>us c m. getUndisclosedAttributes ds (length (ic_Attributes ic)) = Inr us
           \<and> hiddenResponses c (ic_Attributes ic) m [] us = Inr (pd_aResponses p)
           \<and> disclosedValues (ic_Attributes ic) [] ds = Inr (pd_aDisclosed p)"
    using assms
  proof (elim disjE exE conjE)
    assume "CreateDisclosureProof H ic ds context nonce g = Inr p"
    then show ?thesis by (rule CreateDisclosureProof_Inr)
  next
    fix d
    assume "CreateDisclosureProofBuilder ic ds g = Inr d" "CreateProof d challenge = Inr (PD p)"
    then show ?thesis
      using CreateDisclosureProofBuilder_Inr [of ic ds g d] CreateProof_Inr [of d challenge p]
      by auto
  next
    fix d d' vals
    assume "CreateDisclosureProofBuilder ic ds g = Inr d" "Commit d sk = Inr (d', vals)"
      "CreateProof d' challenge = Inr (PD p)"
    then show ?thesis
      using CreateDisclosureProofBuilder_Inr [of ic ds g d] CreateProof_Inr [of d' challenge p]
        Commit_Inr [of d sk d' vals]
      by auto
  qed
  then show ?thesis
    using partition_core by blast
qed

theorem disclosure_partition_witness:
  "CreateDisclosureProof ex_H ex_credential [1] 3 0 ex_rng = Inr ex_proof
   \<and> fst ` set (pd_aResponses ex_proof) \<inter> fst ` set (pd_aDisclosed ex_proof) = {}
   \<and> fst ` set (pd_aResponses ex_proof) \<union> fst ` set (pd_aDisclosed ex_proof)
       = {0..<int (length (ic_Attributes ex_credential))}
   \<and> 0 \<in> fst ` set (pd_aResponses ex_proof)
   \<and> map_of (pd_aDisclosed ex_proof) 1 = Some (ic_Attributes ex_credential ! nat 1)"
proof -
  have h: "CreateDisclosureProof ex_H ex_credential [1] 3 0 ex_rng = Inr ex_proof"
    by code_simp
  have z: "0 \<in> fst ` set (pd_aResponses ex_proof)"
    by (simp add: ex_proof_def)
  show ?thesis
    using disclosure_partition [of ex_H ex_credential "[1]" 3 0 ex_rng ex_proof] h z
    by simp
qed

theorem disclosure_secret_key_counterexample:
  "CreateDisclosureProof ex_H ex_credential [0] 3 0 ex_rng = Inr ex_proof_no_sk
   \<and> 0 \<notin> fst ` set (pd_aResponses ex_proof_no_sk)
   \<and> map_of (pd_aDisclosed ex_proof_no_sk) 0 = Some (ic_Attributes ex_credential ! 0)"
  by code_simp

section \<open>A failing random number generator\<close>

lemma sampleRandomizers_other:
  "v \<notin> set vs \<Longrightarrow> map_of (fst (sampleRandomizers nb vs m g)) v = map_of m v"
  by (induction vs arbitrary: m g) (auto simp: randomBigInt_def update_conv')

lemma sampleRandomizers_nth:
  "distinct vs \<Longrightarrow> k < length vs \<Longrightarrow>
     map_of (fst (sampleRandomizers nb vs m g)) (vs ! k) = Some (g k)"
proof (induction vs arbitrary: m g k)
  case Nil
  then show ?case by simp
next
  case (Cons v vs)
  show ?case
  proof (cases k)
    case 0
    with Cons.prems show ?thesis
      by (simp add: randomBigInt_def sampleRandomizers_other update_conv')
  next
    case (Suc j)
    with Cons.prems Cons.IH [of j] show ?thesis
      by (simp add: randomBigInt_def)
  qed
qed

lemma lookup_sampleRandomizers:
  "distinct vs \<Longrightarrow> k < length vs \<Longrightarrow>
     lookup (fst (sampleRandomizers nb vs m g)) (vs ! k) = g k"
  by (simp add: lookup_def sampleRandomizers_nth)

lemma modPow_nil [simp]: "modPow x None m = Inl NilPointer"
  by (simp add: modPow_def)

lemma commitProduct_nil:
  "v \<in> set vs \<Longrightarrow> lookup m v = None \<Longrightarrow> outcome (commitProduct pk m z vs) = None"
proof (induction vs arbitrary: z)
  case Nil
  then show ?case by simp
next
  case (Cons w ws)
  show ?case
  proof (cases "w = v")
    case True
    with Cons.prems show ?thesis
      by (simp add: outcome_pbind Option.bind_eq_None_conv)
  next
    case False
    with Cons.prems Cons.IH show ?thesis
      by (auto simp: outcome_pbind Option.bind_eq_None_conv)
  qed
qed

lemma distinct_getUndisclosed:
  "getUndisclosedAttributes ds n = Inr us \<Longrightarrow> distinct us"
  by (auto simp: getUndisclosedAttributes_cases distinct_undisclosed split: if_splits)

lemma CreateDisclosureProof_rng_failure:
  assumes n: "g n = None" "1 \<le> n"
    and pos: "n < 3 \<or> (\<exists>us. getUndisclosedAttributes ds (length (ic_Attributes ic)) = Inr us
                          \<and> n < 3 + length us)"
  shows "outcome (CreateDisclosureProof H ic ds context nonce g) = None"
proof (cases "getUndisclosedAttributes ds (length (ic_Attributes ic))")
  case (Inl e)
  then show ?thesis
    by (simp add: CreateDisclosureProof_def)
next
  case us: (Inr us)
  show ?thesis
  proof (cases "Randomize (ic_Signature ic) (ic_Pk ic) g")
    case (Inl e)
    then show ?thesis
      by (simp add: CreateDisclosureProof_def us)
  next
    case (Inr rg)
    obtain randSig g1 where rg: "rg = (randSig, g1)" by (cases rg)
    from Inr have g1: "g1 = (\<lambda>k. g (Suc k))"
      by (auto simp: rg Randomize_def randomBigInt_def pbind_eq_Inr_iff Let_def)
    consider "n = 1" | "n = 2" | "3 \<le> n" "n < 3 + length us"
      using n pos us by force
    then show ?thesis
    proof cases
      case 1
      then show ?thesis
        using n by (simp add: CreateDisclosureProof_def us Inr rg g1 randomBigInt_def
            split_beta Let_def)
    next
      case 2
      then show ?thesis
        using n by (simp add: CreateDisclosureProof_def us Inr rg g1 randomBigInt_def
            split_beta Let_def outcome_pbind Option.bind_eq_None_conv numeral_2_eq_2)
    next
      case 3
      define k where "k = n - 3"
      have k: "k < length us" "n = Suc (Suc (Suc k))"
        using 3 by (simp_all add: k_def)
      have "lookup (fst (sampleRandomizers (LmCommit (pk_Params (ic_Pk ic))) us []
                     (\<lambda>j. g (Suc (Suc (Suc j)))))) (us ! k) = None"
        using lookup_sampleRandomizers [OF distinct_getUndisclosed [OF us] k(1)] n(1) k(2)
        by simp
      then have "outcome (commitProduct (ic_Pk ic)
                   (fst (sampleRandomizers (LmCommit (pk_Params (ic_Pk ic))) us []
                     (\<lambda>j. g (Suc (Suc (Suc j)))))) z us) = None" for z
        using k(1) by (intro commitProduct_nil [of "us ! k"]) simp_all
      then show ?thesis
        by (simp add: CreateDisclosureProof_def us Inr rg g1 randomBigInt_def
            split_beta Let_def outcome_pbind Option.bind_eq_None_conv)
    qed
  qed
qed

lemma Commit_nil:
  assumes "0 \<in> set (b_undisclosedAttributes d)"
  shows "outcome (Commit d None) = None"
proof -
  have "lookup (AList.update 0 None (b_attrRandomizers d)) 0 = None"
    by (simp add: lookup_def update_conv')
  then have "outcome (commitProduct (b_pk d) (AList.update 0 None (b_attrRandomizers d)) z
               (b_undisclosedAttributes d)) = None" for z
    using assms by (intro commitProduct_nil [of 0]) simp_all
  then show ?thesis
    by (simp add: Commit_def Let_def outcome_pbind Option.bind_eq_None_conv)
qed

lemma commitAll_nil:
  "\<exists>d \<in> set pbs. 0 \<in> set (b_undisclosedAttributes d) \<Longrightarrow> outcome (commitAll None pbs) = None"
proof (induction pbs)
  case Nil
  then show ?case by simp
next
  case (Cons pb pbs)
  show ?case
  proof (cases "0 \<in> set (b_undisclosedAttributes pb)")
    case True
    then show ?thesis
      by (simp add: outcome_pbind Commit_nil)
  next
    case False
    with Cons have "outcome (commitAll None pbs) = None"
      by simp
    then show ?thesis
      by (simp add: outcome_pbind Option.bind_eq_None_conv split_beta)
  qed
qed

lemma BuildProofList_rng_failure:
  assumes "g 0 = None" and "\<exists>d \<in> set builders. 0 \<in> set (b_undisclosedAttributes d)"
  shows "outcome (BuildProofList H params context nonce builders g) = None"
  using assms commitAll_nil [of builders]
  by (simp add: BuildProofList_def randomBigInt_def outcome_pbind split_beta)

lemma CreateDisclosureProofBuilder_fields:
  assumes r: "Randomize (ic_Signature ic) (ic_Pk ic) g = Inr (randSig, g1)"
    and us: "getUndisclosedAttributes ds (length (ic_Attributes ic)) = Inr us"
  shows "\<exists>d. CreateDisclosureProofBuilder ic ds g = Inr d
           \<and> b_eCommit d = g 1 \<and> b_vCommit d = g 2
           \<and> (\<forall>k < length us. lookup (b_attrRandomizers d) (us ! k) = g (3 + k))"
proof -
  from r have g1: "g1 = (\<lambda>k. g (Suc k))"
    by (auto simp: Randomize_def randomBigInt_def pbind_eq_Inr_iff Let_def)
  show ?thesis
    using lookup_sampleRandomizers [OF distinct_getUndisclosed [OF us]]
    by (simp add: CreateDisclosureProofBuilder_def r us g1 randomBigInt_def split_beta Let_def
        numeral_2_eq_2 numeral_3_eq_3)
qed

text \<open>
  C8, as the code has it. Every caller discards the generator's error, and there is no
  \<open>RngFailure\<close>. When the generator fails while it samples \<open>eCommit\<close>, \<open>vCommit\<close> or
  the randomizer of a hidden attribute (calls 1, 2 and 3 onwards, call 0 being that of
  \<open>Randomize\<close>), \<open>CreateDisclosureProof\<close> returns no proof: the nil value panics at its
  first use. When it fails while it samples \<open>skCommitment\<close>, \<open>BuildProofList\<close> returns
  no list as soon as one builder hides slot 0. \<open>CreateDisclosureProofBuilder\<close> uses
  none of the values it samples: it returns the builder with whatever the generator
  returned in its fields, nil included.
\<close>

theorem rng_failure:
  "(g n = None \<and> 1 \<le> n
      \<and> (n < 3 \<or> (\<exists>us. getUndisclosedAttributes ds (length (ic_Attributes ic)) = Inr us
                      \<and> n < 3 + length us))
      \<longrightarrow> outcome (CreateDisclosureProof H ic ds context nonce g) = None)
   \<and> (g 0 = None \<and> (\<exists>d \<in> set builders. 0 \<in> set (b_undisclosedAttributes d))
      \<longrightarrow> outcome (BuildProofList H params context nonce builders g) = None)
   \<and> (Randomize (ic_Signature ic) (ic_Pk ic) g = Inr (randSig, g1)
      \<and> getUndisclosedAttributes ds (length (ic_Attributes ic)) = Inr us
      \<longrightarrow> (\<exists>d. CreateDisclosureProofBuilder ic ds g = Inr d
             \<and> b_eCommit d = g 1 \<and> b_vCommit d = g 2
             \<and> (\<forall>k < length us. lookup (b_attrRandomizers d) (us ! k) = g (3 + k))))"
  using CreateDisclosureProof_rng_failure [of g n ds ic H "context" nonce]
    BuildProofList_rng_failure [of g builders H "params" "context" nonce]
    CreateDisclosureProofBuilder_fields [of ic g randSig g1 ds us]
  by blast

theorem rng_failure_witness:
  "ex_rng_failing 1 = None \<and> (1::nat) \<le> 1 \<and> (1::nat) < 3
   \<and> outcome (CreateDisclosureProof ex_H ex_credential [1] 3 0 ex_rng_failing) = None
   \<and> (\<lambda>n. None :: int option) 0 = None
   \<and> ex_builder_nil \<in> set [ex_builder_nil] \<and> 0 \<in> set (b_undisclosedAttributes ex_builder_nil)
   \<and> outcome (BuildProofList ex_H ex_params 0 0 [ex_builder_nil] (\<lambda>n. None)) = None
   \<and> Randomize (ic_Signature ex_credential) (ic_Pk ex_credential) ex_rng_failing
       = Inr (\<lparr>sig_A = 2, sig_E = 17, sig_V = 1\<rparr>, \<lambda>n. ex_rng_failing (Suc n))
   \<and> getUndisclosedAttributes [1] (length (ic_Attributes ex_credential)) = Inr [0]
   \<and> (\<exists>d. CreateDisclosureProofBuilder ex_credential [1] ex_rng_failing = Inr d
          \<and> b_eCommit d = None)"
proof -
  have h1: "ex_rng_failing 1 = None"
    by (simp add: ex_rng_failing_def)
  have h2: "0 \<in> set (b_undisclosedAttributes ex_builder_nil)"
    by (simp add: ex_builder_nil_def)
  have h3: "Randomize (ic_Signature ex_credential) (ic_Pk ex_credential) ex_rng_failing
       = Inr (\<lparr>sig_A = 2, sig_E = 17, sig_V = 1\<rparr>, \<lambda>n. ex_rng_failing (Suc n))"
    by (simp add: Randomize_def randomBigInt_def ex_rng_failing_def ex_credential_def
        ex_pk_def modPow_def Exp_def bigMod_def)
  have h4: "getUndisclosedAttributes [1] (length (ic_Attributes ex_credential)) = Inr [0]"
    by code_simp
  show ?thesis
    using rng_failure [of ex_rng_failing 1 "[1]" ex_credential ex_H 3 0
        "[ex_builder_nil]" ex_params
        "\<lparr>sig_A = 2, sig_E = 17, sig_V = 1\<rparr>" "\<lambda>n. ex_rng_failing (Suc n)" "[0]"]
      rng_failure [of "\<lambda>n. None" 1 "[1]" ex_credential ex_H 0 0
        "[ex_builder_nil]" ex_params
        "\<lparr>sig_A = 2, sig_E = 17, sig_V = 1\<rparr>" "\<lambda>n. None" "[0]"]
      h1 h2 h3 h4
    by auto
qed

theorem rng_failure_builder_counterexample:
  "ex_rng_failing 1 = None
   \<and> CreateDisclosureProofBuilder ex_credential [1] ex_rng_failing = Inr ex_builder_nil
   \<and> b_eCommit ex_builder_nil = None"
  by code_simp

end
